theory Spec2Isabelle
  imports Main "HOL-Library.AList"
begin

section \<open>The reflection tree\<close>

text \<open>
  The router of \<^verbatim>\<open>src/lib/html/router.ts\<close> works on a tree of reflections that it only
  reads. A reflection is an object with an identity, a back-reference to its parent and a
  list of children; the model keeps the objects in a heap addressed by their identity.
  A JavaScript string is a sequence of code units; the model uses HOL's \<open>char\<close>, so it
  covers the strings whose code units are below 256.
\<close>

type_synonym ref = nat

text \<open>
  Modelled from the spec: the enumeration \<^verbatim>\<open>ReflectionKind\<close> of \<^verbatim>\<open>../models\<close>, which is not
  among the sources. The spec names the kinds below and calls the enumeration extensible;
  \<open>OtherKind\<close> carries the kind string of any further kind.
\<close>

datatype ReflectionKind =
  Project | Module | Namespace | Class | Interface | Function | Method | Signature
  | OtherKind string

record Reflection =
  kind :: ReflectionKind
  name :: string
  parent :: "ref option"
  children :: "ref list"

type_synonym heap = "ref \<Rightarrow> Reflection"

text \<open>
  Modelled from the spec: \<^verbatim>\<open>Reflection.kindOf\<close>, \<^verbatim>\<open>Reflection.isProject\<close> and
  \<^verbatim>\<open>ReflectionKind.toKindString\<close> of \<^verbatim>\<open>../models\<close>, which are not among the sources. A mask
  of kinds is the list of its kinds. The kind string is the name of the kind in lower case,
  as the docstring of \<^verbatim>\<open>getDocumentName\<close> in the source prints it
  (\<^verbatim>\<open>mod/ns/class.Foo.html\<close>); the scenarios of the spec print it with a capital. A
  reflection that is no container, or whose \<^verbatim>\<open>children\<close> are undefined, has the empty list
  of children: the source takes the same branch for all three.
\<close>

definition kindOf :: "Reflection \<Rightarrow> ReflectionKind list \<Rightarrow> bool" where
  "kindOf r ks = (kind r \<in> set ks)"

definition isProject :: "Reflection \<Rightarrow> bool" where
  "isProject r = (kind r = Project)"

fun toKindString :: "ReflectionKind \<Rightarrow> string" where
  "toKindString Project = ''project''"
| "toKindString Module = ''module''"
| "toKindString Namespace = ''namespace''"
| "toKindString Class = ''class''"
| "toKindString Interface = ''interface''"
| "toKindString Function = ''function''"
| "toKindString Method = ''method''"
| "toKindString Signature = ''signature''"
| "toKindString (OtherKind s) = s"

datatype error = BrokenAncestry | NonProjectRoot

section \<open>The page-ownership policy\<close>

type_synonym policy = "Reflection \<Rightarrow> bool"

text \<open>Rule 3 of \<^verbatim>\<open>hasOwnDocument\<close>: a policy must return true for a project.\<close>

definition ownsProject :: "policy \<Rightarrow> bool" where
  "ownsProject hod = (\<forall>r. isProject r \<longrightarrow> hod r)"

definition hasOwnDocument :: policy where
  "hasOwnDocument r = kindOf r [Project, Module, Namespace, Class, Interface]"

definition MinimalThemeRouter_hasOwnDocument :: policy where
  "MinimalThemeRouter_hasOwnDocument r = isProject r"

section \<open>Safe file names\<close>

text \<open>
  \<^verbatim>\<open>name.replace(/[^A-Za-z0-9._-]|^-/g, "_")\<close>: every character outside the class is
  replaced, and so is a hyphen at the start of the input (the expression has no \<^verbatim>\<open>m\<close>
  flag, so \<^verbatim>\<open>^\<close> is the start of the string only).
\<close>

definition portable :: "char \<Rightarrow> bool" where
  "portable c =
     (c \<in> set (''ABCDEFGHIJKLMNOPQRSTUVWXYZ'' @ ''abcdefghijklmnopqrstuvwxyz'' @
                ''0123456789'' @ ''._-''))"

definition safeChar :: "char \<Rightarrow> char" where
  "safeChar c = (if portable c then c else CHR ''_'')"

fun getSafeFilename :: "string \<Rightarrow> string" where
  "getSafeFilename [] = []"
| "getSafeFilename (c # cs) =
     (if c = CHR ''-'' then CHR ''_'' else safeChar c) # map safeChar cs"

text \<open>\<^verbatim>\<open>Array.prototype.join\<close> and \<^verbatim>\<open>String.prototype.split\<close> at one separator.\<close>

fun joinWith :: "string \<Rightarrow> string list \<Rightarrow> string" where
  "joinWith sep [] = []"
| "joinWith sep [x] = x"
| "joinWith sep (x # y # ys) = x @ sep @ joinWith sep (y # ys)"

fun splitAt :: "char \<Rightarrow> string \<Rightarrow> string list" where
  "splitAt d [] = [[]]"
| "splitAt d (c # cs) =
     (if c = d then [] # splitAt d cs
      else (case splitAt d cs of [] \<Rightarrow> [[c]] | s # ss \<Rightarrow> (c # s) # ss))"

section \<open>The document owner and the document name\<close>

text \<open>
  The loops of the router follow \<^verbatim>\<open>parent\<close> links. On a heap whose links form a cycle they
  never end, so they are partial functions: \<open>None\<close> is the loop that does not return,
  \<open>Some (Inl e)\<close> the failed assertion, \<open>Some (Inr v)\<close> the value returned.
\<close>

partial_function (option) getReflectionWithDocument ::
  "policy \<Rightarrow> heap \<Rightarrow> ref \<Rightarrow> (error + ref) option" where
  "getReflectionWithDocument hod t reflection =
     (if \<not> hod (t reflection) then
        (case parent (t reflection) of
           None \<Rightarrow> Some (Inl BrokenAncestry)
         | Some p \<Rightarrow> getReflectionWithDocument hod t p)
      else Some (Inr reflection))"

declare getReflectionWithDocument.simps [code]

definition anyChildrenHaveOwnDocument :: "policy \<Rightarrow> heap \<Rightarrow> ref \<Rightarrow> bool" where
  "anyChildrenHaveOwnDocument hod t reflection =
     list_ex (\<lambda>child. hod (t child)) (children (t reflection))"

definition getChildrenInPage :: "policy \<Rightarrow> heap \<Rightarrow> ref \<Rightarrow> ref list" where
  "getChildrenInPage hod t reflection =
     filter (\<lambda>child. \<not> hod (t child)) (children (t reflection))"

definition getChildrenNotInPage :: "policy \<Rightarrow> heap \<Rightarrow> ref \<Rightarrow> ref list" where
  "getChildrenNotInPage hod t reflection =
     filter (\<lambda>child. hod (t child)) (children (t reflection))"

text \<open>
  The first loop of \<^verbatim>\<open>getDocumentName\<close>: it returns the collected parts and the
  parentless reflection it stopped at.
\<close>

partial_function (option) documentParts ::
  "heap \<Rightarrow> ref \<Rightarrow> string list \<Rightarrow> (string list \<times> ref) option" where
  "documentParts t docReflection parts =
     (case parent (t docReflection) of
        Some p \<Rightarrow> documentParts t p (getSafeFilename (name (t docReflection)) # parts)
      | None \<Rightarrow> Some (parts, docReflection))"

declare documentParts.simps [code]

definition fileName :: "Reflection \<Rightarrow> string" where
  "fileName r = toKindString (kind r) @ ''.'' @ getSafeFilename (name r) @ ''.html''"

definition getDocumentName :: "policy \<Rightarrow> heap \<Rightarrow> ref \<Rightarrow> (error + string) option" where
  "getDocumentName hod t reflection =
     (case getReflectionWithDocument hod t reflection of
        None \<Rightarrow> None
      | Some (Inl e) \<Rightarrow> Some (Inl e)
      | Some (Inr pageReflection) \<Rightarrow>
          (case documentParts t pageReflection [] of
             None \<Rightarrow> None
           | Some (parts, docReflection) \<Rightarrow>
               if \<not> isProject (t docReflection) then Some (Inl NonProjectRoot)
               else if anyChildrenHaveOwnDocument hod t pageReflection \<or>
                       isProject (t pageReflection)
               then Some (Inr (joinWith ''/'' (parts @ [''index.html''])))
               else Some (Inr (joinWith ''/'' (butlast parts @ [fileName (t pageReflection)])))))"

section \<open>The label uniquifier\<close>

text \<open>The decimal numeral of a counter, as JavaScript's string concatenation prints it.\<close>

definition digitChar :: "nat \<Rightarrow> char" where
  "digitChar d = ''0123456789'' ! d"

fun digits :: "nat \<Rightarrow> string" where
  "digits n = (if n < 10 then [digitChar n] else digits (n div 10) @ [digitChar (n mod 10)])"

declare digits.simps [simp del]

text \<open>
  Modelled from the spec: the Label Uniquifier, class \<^verbatim>\<open>Slugger\<close> of the library
  \<^verbatim>\<open>marked\<close>, which is not among the sources. The spec describes it as a mapping from each
  normalized label to the count of times it was issued, which remembers every identifier it
  has issued and appends a disambiguating counter on a repeat. The normalization of a label
  is not described; it is the parameter \<open>serialize\<close> of everything below. The state is the
  object \<^verbatim>\<open>seen\<close>, an association list from identifiers to counters.
\<close>

type_synonym Slugger = "(string \<times> nat) list"

definition hasOwnProperty :: "Slugger \<Rightarrow> string \<Rightarrow> bool" where
  "hasOwnProperty seen k = (map_of seen k \<noteq> None)"

definition numbered :: "string \<Rightarrow> nat \<Rightarrow> string" where
  "numbered originalSlug n = originalSlug @ ''-'' @ digits n"

function nextOccurrence :: "Slugger \<Rightarrow> string \<Rightarrow> nat \<Rightarrow> nat" where
  "nextOccurrence seen originalSlug occurrence =
     (if hasOwnProperty seen (numbered originalSlug (Suc occurrence))
      then nextOccurrence seen originalSlug (Suc occurrence)
      else Suc occurrence)"
  by pat_completeness auto
termination
proof (relation "measure (\<lambda>(seen, originalSlug, occurrence).
          card {k. occurrence < k \<and> numbered originalSlug k \<in> fst ` set seen})")
  show "wf (measure (\<lambda>(seen, originalSlug, occurrence).
          card {k. occurrence < k \<and> numbered originalSlug k \<in> fst ` set seen}))"
    by simp
next
  fix seen :: Slugger and originalSlug :: string and occurrence :: nat
  assume taken: "hasOwnProperty seen (numbered originalSlug (Suc occurrence))"
  have len: "digits n \<noteq> []" for n
    by (subst digits.simps) simp
  have dc: "digitChar a = digitChar b \<Longrightarrow> a = b" if "a < 10" "b < 10" for a b
  proof -
    from that have "a \<in> {0, 1, 2, 3, 4, 5, 6, 7, 8, 9}" "b \<in> {0, 1, 2, 3, 4, 5, 6, 7, 8, 9}"
      by auto
    then show "digitChar a = digitChar b \<Longrightarrow> a = b"
      by (auto simp: digitChar_def)
  qed
  have inj: "digits n = digits m \<Longrightarrow> n = m" for n m
  proof (induction n arbitrary: m rule: digits.induct)
    case (1 n)
    show ?case
    proof (cases "n < 10")
      case small: True
      show ?thesis
      proof (cases "m < 10")
        case True
        with small "1.prems" show ?thesis
          by (simp add: digits.simps [of n] digits.simps [of m] dc)
      next
        case False
        with small "1.prems" len [of "m div 10"] show ?thesis
          by (simp add: digits.simps [of n] digits.simps [of m])
      qed
    next
      case big: False
      show ?thesis
      proof (cases "m < 10")
        case True
        with big "1.prems" len [of "n div 10"] show ?thesis
          by (simp add: digits.simps [of n] digits.simps [of m])
      next
        case False
        with big "1.prems" have q: "digits (n div 10) = digits (m div 10)"
          and r: "digitChar (n mod 10) = digitChar (m mod 10)"
          by (simp_all add: digits.simps [of n] digits.simps [of m])
        from "1.IH" [OF big q] have "n div 10 = m div 10" .
        moreover from r have "n mod 10 = m mod 10"
          by (simp add: dc)
        ultimately show ?thesis
          by (metis div_mult_mod_eq)
      qed
    qed
  qed
  let ?S = "\<lambda>occ. {k. occ < k \<and> numbered originalSlug k \<in> fst ` set seen}"
  have "inj (numbered originalSlug)"
    by (rule injI) (simp add: numbered_def inj)
  then have "finite (numbered originalSlug -` (fst ` set seen))"
    by (simp add: finite_vimageI)
  then have fin: "finite (?S occurrence)"
    by (rule rev_finite_subset) auto
  from taken have "numbered originalSlug (Suc occurrence) \<in> fst ` set seen"
    by (auto simp: hasOwnProperty_def dest: map_of_SomeD intro: rev_image_eqI)
  then have "Suc occurrence \<in> ?S occurrence" and "Suc occurrence \<notin> ?S (Suc occurrence)"
    by simp_all
  moreover have "?S (Suc occurrence) \<subseteq> ?S occurrence"
    by auto
  ultimately have "?S (Suc occurrence) \<subset> ?S occurrence"
    by blast
  with fin have "card (?S (Suc occurrence)) < card (?S occurrence)"
    by (rule psubset_card_mono)
  then show "((seen, originalSlug, Suc occurrence), (seen, originalSlug, occurrence))
        \<in> measure (\<lambda>(seen, originalSlug, occurrence).
            card {k. occurrence < k \<and> numbered originalSlug k \<in> fst ` set seen})"
    by simp
qed

declare nextOccurrence.simps [simp del]

definition getNextSafeSlug :: "Slugger \<Rightarrow> string \<Rightarrow> string \<times> Slugger" where
  "getNextSafeSlug seen originalSlug =
     (case map_of seen originalSlug of
        None \<Rightarrow> (originalSlug, AList.update originalSlug 0 (AList.update originalSlug 0 seen))
      | Some count \<Rightarrow>
          (let occurrence = nextOccurrence seen originalSlug count;
               slug = numbered originalSlug occurrence
           in (slug, AList.update slug 0 (AList.update originalSlug occurrence seen))))"

definition slug :: "(string \<Rightarrow> string) \<Rightarrow> Slugger \<Rightarrow> string \<Rightarrow> string \<times> Slugger" where
  "slug serialize seen label = getNextSafeSlug seen (serialize label)"

section \<open>Paths\<close>

text \<open>
  Modelled from the spec: \<^verbatim>\<open>relativePath\<close> and \<^verbatim>\<open>dirOf\<close>, which the source takes from the
  platform (\<^verbatim>\<open>posix.dirname\<close>, \<^verbatim>\<open>posix.join\<close> and \<^verbatim>\<open>posix.relative\<close> of Node's \<^verbatim>\<open>path\<close>
  module, not among the sources). Paths use forward slashes. A path is normalized segment
  by segment: an empty segment and \<^verbatim>\<open>.\<close> are dropped, \<^verbatim>\<open>..\<close> removes the segment before it,
  and is kept at the start of a relative path only. \<^verbatim>\<open>posix.relative\<close> resolves both of
  its arguments against the working directory of the process, which is the parameter
  \<open>cwd\<close>, the list of its segments.
\<close>

definition normalizeStep :: "bool \<Rightarrow> string list \<Rightarrow> string \<Rightarrow> string list" where
  "normalizeStep allowAboveRoot res seg =
     (if seg = [] \<or> seg = ''.'' then res
      else if seg = ''..'' then
        (if res = [] \<or> last res = ''..''
         then (if allowAboveRoot then res @ [''..''] else res)
         else butlast res)
      else res @ [seg])"

definition normalizeSegments :: "bool \<Rightarrow> string list \<Rightarrow> string list" where
  "normalizeSegments allowAboveRoot segs = foldl (normalizeStep allowAboveRoot) [] segs"

definition isAbsolute :: "string \<Rightarrow> bool" where
  "isAbsolute path = (take 1 path = ''/'')"

definition posix_normalize :: "string \<Rightarrow> string" where
  "posix_normalize path =
     (if path = [] then ''.''
      else
        (let trailingSeparator = (last path = CHR ''/'');
             res = joinWith ''/'' (normalizeSegments (\<not> isAbsolute path) (splitAt CHR ''/'' path))
         in if res = [] then
              (if isAbsolute path then ''/'' else if trailingSeparator then ''./'' else ''.'')
            else (if isAbsolute path then ''/'' else []) @ res @
                 (if trailingSeparator then ''/'' else [])))"

definition posix_join :: "string \<Rightarrow> string \<Rightarrow> string" where
  "posix_join a b =
     (if a = [] \<and> b = [] then ''.''
      else if a = [] then posix_normalize b
      else if b = [] then posix_normalize a
      else posix_normalize (a @ ''/'' @ b))"

definition posix_dirname :: "string \<Rightarrow> string" where
  "posix_dirname path =
     (if path = [] then ''.''
      else
        (let hasRoot = (hd path = CHR ''/'');
             afterName = dropWhile (\<lambda>c. c \<noteq> CHR ''/'')
                           (dropWhile (\<lambda>c. c = CHR ''/'') (rev (tl path)));
             end = length afterName
         in if afterName = [] then (if hasRoot then ''/'' else ''.'')
            else if hasRoot \<and> end = 1 then ''//''
            else take end path))"

definition posix_resolve :: "string list \<Rightarrow> string \<Rightarrow> string list" where
  "posix_resolve cwd path =
     normalizeSegments False ((if isAbsolute path then [] else cwd) @ splitAt CHR ''/'' path)"

fun stripCommon :: "string list \<Rightarrow> string list \<Rightarrow> string list \<times> string list" where
  "stripCommon (x # xs) (y # ys) = (if x = y then stripCommon xs ys else (x # xs, y # ys))"
| "stripCommon xs ys = (xs, ys)"

definition posix_relative :: "string list \<Rightarrow> string \<Rightarrow> string \<Rightarrow> string" where
  "posix_relative cwd from to =
     (if from = to then []
      else
        (let fromSegs = posix_resolve cwd from; toSegs = posix_resolve cwd to
         in if fromSegs = toSegs then []
            else (case stripCommon fromSegs toSegs of
                    (up, down) \<Rightarrow> joinWith ''/'' (replicate (length up) ''..'' @ down))))"

section \<open>The router\<close>

text \<open>
  The state of a router: \<^verbatim>\<open>_sluggers\<close> maps a page owner to its slugger, \<^verbatim>\<open>_slugs\<close> maps a
  slugger to the slugs already given to reflections. A slugger is created in one place
  only, for one owner, and is stored nowhere else, so the model names a slugger by its owner
  and keeps its state \<^verbatim>\<open>seen\<close> in \<open>sluggers\<close>.
\<close>

record RouterState =
  sluggers :: "ref \<Rightarrow> Slugger option"
  slugs :: "ref \<Rightarrow> (ref \<Rightarrow> string option) option"

definition newRouter :: RouterState where
  "newRouter = \<lparr>sluggers = Map.empty, slugs = Map.empty\<rparr>"

text \<open>A new slugger with the ids of the default page registered.\<close>

definition newSlugger :: "(string \<Rightarrow> string) \<Rightarrow> Slugger" where
  "newSlugger serialize =
     snd (slug serialize (snd (slug serialize (snd (slug serialize [] ''main'')) ''search''))
            ''theme'')"

text \<open>
  The loop of \<^verbatim>\<open>createSlug\<close> that collects the names between a reflection and the owner
  of its page.
\<close>

partial_function (option) slugParts ::
  "heap \<Rightarrow> ref \<Rightarrow> ref \<Rightarrow> string list \<Rightarrow> (error + string list) option" where
  "slugParts t reflection docReflection parts =
     (if reflection \<noteq> docReflection then
        (case parent (t reflection) of
           None \<Rightarrow> Some (Inl BrokenAncestry)
         | Some p \<Rightarrow>
             slugParts t p docReflection
               (if \<not> kindOf (t reflection) [Signature] then name (t reflection) # parts
                else parts))
      else Some (Inr parts))"

declare slugParts.simps [code]

text \<open>
  An optional argument that JavaScript takes as given: \<^verbatim>\<open>undefined\<close> and the empty string
  are both falsy.
\<close>

definition given :: "string option \<Rightarrow> bool" where
  "given header = (header \<noteq> None \<and> header \<noteq> Some [])"

definition sluggerOf :: "(string \<Rightarrow> string) \<Rightarrow> RouterState \<Rightarrow> ref \<Rightarrow> Slugger" where
  "sluggerOf serialize st docReflection =
     (case sluggers st docReflection of None \<Rightarrow> newSlugger serialize | Some s \<Rightarrow> s)"

definition memoOf :: "RouterState \<Rightarrow> ref \<Rightarrow> (ref \<Rightarrow> string option)" where
  "memoOf st docReflection =
     (case slugs st docReflection of None \<Rightarrow> Map.empty | Some m \<Rightarrow> m)"

text \<open>
  \<^verbatim>\<open>createSlug\<close> returns its result, or the assertion that failed, together with the state
  of the router at that moment: what it stored before an assertion fails stays stored.
\<close>

definition createSlug ::
  "(string \<Rightarrow> string) \<Rightarrow> policy \<Rightarrow> heap \<Rightarrow> RouterState \<Rightarrow> ref \<Rightarrow> string option
     \<Rightarrow> ((error + string) \<times> RouterState) option" where
  "createSlug serialize hod t st reflection header =
     (case getReflectionWithDocument hod t reflection of
        None \<Rightarrow> None
      | Some (Inl e) \<Rightarrow> Some (Inl e, st)
      | Some (Inr docReflection) \<Rightarrow>
          if docReflection = reflection \<and> \<not> given header then Some (Inr [], st)
          else
            (let slugger = sluggerOf serialize st docReflection;
                 st1 = st\<lparr>sluggers := (sluggers st)(docReflection \<mapsto> slugger)\<rparr>
             in if given header then
                  (case slug serialize slugger (the header) of
                     (s, slugger') \<Rightarrow>
                       Some (Inr s, st1\<lparr>sluggers := (sluggers st1)(docReflection \<mapsto> slugger')\<rparr>))
                else
                  (case slugParts t reflection docReflection [] of
                     None \<Rightarrow> None
                   | Some (Inl e) \<Rightarrow> Some (Inl e, st1)
                   | Some (Inr parts) \<Rightarrow>
                       (let memo = memoOf st1 docReflection
                        in case (case memo reflection of
                                   None \<Rightarrow> slug serialize slugger (joinWith ''-'' parts)
                                 | Some s \<Rightarrow> (s, slugger)) of
                             (s, slugger') \<Rightarrow>
                               Some (Inr s,
                                 st1\<lparr>sluggers := (sluggers st1)(docReflection \<mapsto> slugger'),
                                     slugs := (slugs st1)(docReflection \<mapsto>
                                                memo(reflection \<mapsto> s))\<rparr>)))))"

text \<open>
  \<^verbatim>\<open>slugs.get(targetReflection) ?? slugger.slug(name)\<close>, the slug that \<^verbatim>\<open>createSlug\<close> gives
  to a reflection that shares the page of \<open>d\<close>, with the slugger after it.
\<close>

definition issue ::
  "(string \<Rightarrow> string) \<Rightarrow> RouterState \<Rightarrow> ref \<Rightarrow> ref \<Rightarrow> string list \<Rightarrow> string \<times> Slugger" where
  "issue serialize st d n parts =
     (case memoOf st d n of
        None \<Rightarrow> slug serialize (sluggerOf serialize st d) (joinWith ''-'' parts)
      | Some s \<Rightarrow> (s, sluggerOf serialize st d))"

definition createLink ::
  "string list \<Rightarrow> (string \<Rightarrow> string) \<Rightarrow> policy \<Rightarrow> heap \<Rightarrow> RouterState \<Rightarrow> ref \<Rightarrow> ref
     \<Rightarrow> ((error + string) \<times> RouterState) option" where
  "createLink cwd serialize hod t st from to =
     (case getDocumentName hod t from of
        None \<Rightarrow> None
      | Some (Inl e) \<Rightarrow> Some (Inl e, st)
      | Some (Inr fromPage) \<Rightarrow>
          (case getDocumentName hod t to of
             None \<Rightarrow> None
           | Some (Inl e) \<Rightarrow> Some (Inl e, st)
           | Some (Inr toPage) \<Rightarrow>
               (case createSlug serialize hod t st to None of
                  None \<Rightarrow> None
                | Some (Inl e, st') \<Rightarrow> Some (Inl e, st')
                | Some (Inr s, st') \<Rightarrow>
                    Some (Inr (posix_relative cwd (posix_dirname fromPage) toPage @
                               (if s \<noteq> [] then ''#'' @ s else [])), st'))))"

definition getAssetDirectory :: string where
  "getAssetDirectory = ''assets''"

definition getMediaDirectory :: string where
  "getMediaDirectory = ''media''"

definition createAssetLink ::
  "string list \<Rightarrow> policy \<Rightarrow> heap \<Rightarrow> ref \<Rightarrow> string \<Rightarrow> (error + string) option" where
  "createAssetLink cwd hod t from asset =
     (case getReflectionWithDocument hod t from of
        None \<Rightarrow> None
      | Some (Inl e) \<Rightarrow> Some (Inl e)
      | Some (Inr docReflection) \<Rightarrow>
          (case getDocumentName hod t docReflection of
             None \<Rightarrow> None
           | Some (Inl e) \<Rightarrow> Some (Inl e)
           | Some (Inr page) \<Rightarrow>
               Some (Inr (posix_relative cwd (posix_dirname page)
                            (posix_join getAssetDirectory asset)))))"

definition createMediaLink ::
  "string list \<Rightarrow> policy \<Rightarrow> heap \<Rightarrow> ref \<Rightarrow> string \<Rightarrow> (error + string) option" where
  "createMediaLink cwd hod t from media =
     (case getReflectionWithDocument hod t from of
        None \<Rightarrow> None
      | Some (Inl e) \<Rightarrow> Some (Inl e)
      | Some (Inr docReflection) \<Rightarrow>
          (case getDocumentName hod t docReflection of
             None \<Rightarrow> None
           | Some (Inl e) \<Rightarrow> Some (Inl e)
           | Some (Inr page) \<Rightarrow>
               Some (Inr (posix_relative cwd (posix_dirname page)
                            (posix_join getAssetDirectory media)))))"

section \<open>Sequences of queries\<close>

text \<open>
  The queries that change the state of a router are \<^verbatim>\<open>createSlug\<close> and \<^verbatim>\<open>createLink\<close>.
  \<open>queries\<close> is the state after a list of them, each of which returned or failed an
  assertion; it is \<open>None\<close> when one of them does not return.
\<close>

datatype query = CreateSlug ref "string option" | CreateLink ref ref

fun runQuery ::
  "string list \<Rightarrow> (string \<Rightarrow> string) \<Rightarrow> policy \<Rightarrow> heap \<Rightarrow> RouterState \<Rightarrow> query
     \<Rightarrow> RouterState option" where
  "runQuery cwd serialize hod t st (CreateSlug reflection header) =
     map_option snd (createSlug serialize hod t st reflection header)"
| "runQuery cwd serialize hod t st (CreateLink from to) =
     map_option snd (createLink cwd serialize hod t st from to)"

fun queries ::
  "string list \<Rightarrow> (string \<Rightarrow> string) \<Rightarrow> policy \<Rightarrow> heap \<Rightarrow> RouterState \<Rightarrow> query list
     \<Rightarrow> RouterState option" where
  "queries cwd serialize hod t st [] = Some st"
| "queries cwd serialize hod t st (q # qs) =
     (case runQuery cwd serialize hod t st q of
        None \<Rightarrow> None
      | Some st' \<Rightarrow> queries cwd serialize hod t st' qs)"

section \<open>Well-formed trees and normalizations\<close>

text \<open>
  A reflection is rooted when its \<^verbatim>\<open>parent\<close> links lead to a parentless reflection that is
  the project.
\<close>

inductive rooted :: "heap \<Rightarrow> ref \<Rightarrow> bool" for t :: heap where
  root: "parent (t n) = None \<Longrightarrow> isProject (t n) \<Longrightarrow> rooted t n"
| child: "parent (t n) = Some p \<Longrightarrow> rooted t p \<Longrightarrow> rooted t n"

text \<open>The project is the root of the tree: no reflection with a parent is a project.\<close>

definition projectIsRoot :: "heap \<Rightarrow> bool" where
  "projectIsRoot t = (\<forall>n. isProject (t n) \<longrightarrow> parent (t n) = None)"

text \<open>
  \<open>signatureChain hod t n d\<close>: the reflection \<open>n\<close> and every reflection between it and
  the owner \<open>d\<close> of its page are signatures without a page of their own.
\<close>

inductive signatureChain :: "policy \<Rightarrow> heap \<Rightarrow> ref \<Rightarrow> ref \<Rightarrow> bool"
  for hod :: policy and t :: heap where
  below: "\<not> hod (t n) \<Longrightarrow> kind (t n) = Signature \<Longrightarrow> parent (t n) = Some d \<Longrightarrow> hod (t d)
            \<Longrightarrow> signatureChain hod t n d"
| above: "\<not> hod (t n) \<Longrightarrow> kind (t n) = Signature \<Longrightarrow> parent (t n) = Some p
            \<Longrightarrow> signatureChain hod t p d \<Longrightarrow> signatureChain hod t n d"

text \<open>
  What the theorems ask of the normalization of the slugger: that it leaves the ids of the
  default page as they are, and that what it returns is in lower case. The lower case of
  the model is that of the letters \<^verbatim>\<open>A\<close> to \<^verbatim>\<open>Z\<close>.
\<close>

definition keepsReserved :: "(string \<Rightarrow> string) \<Rightarrow> bool" where
  "keepsReserved serialize =
     (serialize ''main'' = ''main'' \<and> serialize ''search'' = ''search'' \<and>
      serialize ''theme'' = ''theme'')"








section \<open>Sample trees\<close>

text \<open>The object at every address that a sample tree does not use.\<close>

definition nobody :: Reflection where
  "nobody = \<lparr>kind = OtherKind [], name = [], parent = None, children = []\<rparr>"

text \<open>The project \<^verbatim>\<open>MyLib\<close> with the module \<^verbatim>\<open>core\<close>, its class \<^verbatim>\<open>Foo\<close> and the method \<^verbatim>\<open>bar\<close>.\<close>

definition myLib :: heap where
  "myLib = (\<lambda>_. nobody)
     (0 := \<lparr>kind = Project, name = ''MyLib'', parent = None, children = [1]\<rparr>,
      1 := \<lparr>kind = Module, name = ''core'', parent = Some 0, children = [2]\<rparr>,
      2 := \<lparr>kind = Class, name = ''Foo'', parent = Some 1, children = [3]\<rparr>,
      3 := \<lparr>kind = Method, name = ''bar'', parent = Some 2, children = []\<rparr>)"

text \<open>A project with the classes \<^verbatim>\<open>$a\<close> and \<^verbatim>\<open>_a\<close>.\<close>

definition twoClasses :: heap where
  "twoClasses = (\<lambda>_. nobody)
     (0 := \<lparr>kind = Project, name = ''lib'', parent = None, children = [1, 2]\<rparr>,
      1 := \<lparr>kind = Class, name = ''$a'', parent = Some 0, children = []\<rparr>,
      2 := \<lparr>kind = Class, name = ''_a'', parent = Some 0, children = []\<rparr>)"






section \<open>Filename safety\<close>


lemma safeChar_fixes: "portable c \<Longrightarrow> safeChar c = c"
  by (simp add: safeChar_def)







section \<open>The owner of a page and the loops that follow parent links\<close>



lemma owner_self:
  "hod (t n) \<Longrightarrow> getReflectionWithDocument hod t n = Some (Inr n)"
  by (simp add: getReflectionWithDocument.simps)

lemma owner_parent:
  "\<not> hod (t n) \<Longrightarrow> parent (t n) = Some p \<Longrightarrow>
     getReflectionWithDocument hod t n = getReflectionWithDocument hod t p"
  by (subst getReflectionWithDocument.simps) simp

lemma owner_orphan:
  "\<not> hod (t n) \<Longrightarrow> parent (t n) = None \<Longrightarrow>
     getReflectionWithDocument hod t n = Some (Inl BrokenAncestry)"
  by (subst getReflectionWithDocument.simps) simp


lemma owner_rooted:
  assumes "rooted t n" and "ownsProject hod"
  shows "\<exists>d. getReflectionWithDocument hod t n = Some (Inr d) \<and> rooted t d"
  using assms(1)
proof (induction rule: rooted.induct)
  case (root n)
  with assms(2) have "hod (t n)" by (simp add: ownsProject_def)
  with root show ?case
    by (auto simp: owner_self intro: rooted.root)
next
  case (child n p)
  show ?case
  proof (cases "hod (t n)")
    case True
    with child show ?thesis
      by (auto simp: owner_self intro: rooted.child)
  next
    case False
    with child show ?thesis
      by (simp add: owner_parent)
  qed
qed

lemma documentParts_rooted:
  "rooted t d \<Longrightarrow> \<exists>ps r. documentParts t d parts = Some (ps, r) \<and> isProject (t r)"
proof (induction arbitrary: parts rule: rooted.induct)
  case (root n)
  then show ?case
    by (subst documentParts.simps) simp
next
  case (child n p)
  then show ?case
    by (subst documentParts.simps) simp
qed


lemma getDocumentName_rooted:
  assumes "rooted t n" and "ownsProject hod"
  shows "\<exists>page. getDocumentName hod t n = Some (Inr page)"
proof -
  from owner_rooted [OF assms] obtain d
    where d: "getReflectionWithDocument hod t n = Some (Inr d)" and "rooted t d"
    by blast
  from documentParts_rooted [OF \<open>rooted t d\<close>, of "[]"] obtain ps r
    where "documentParts t d [] = Some (ps, r)" and "isProject (t r)"
    by blast
  with d show ?thesis
    by (simp add: getDocumentName_def)
qed

lemma slugParts_owner_aux:
  "getReflectionWithDocument hod t n = Some res \<Longrightarrow>
     res = Inr d \<longrightarrow> hod (t d) \<and> (\<forall>parts. \<exists>ps. slugParts t n d parts = Some (Inr ps))"
proof (induction hod t n res rule: getReflectionWithDocument.raw_induct [rotated 1, consumes 1])
  case (1 rec hod t n res)
  show ?case
  proof (cases "hod (t n)")
    case True
    with 1 show ?thesis
      by (auto simp: slugParts.simps)
  next
    case False
    show ?thesis
    proof
      assume res: "res = Inr d"
      with False 1 obtain p where p: "parent (t n) = Some p" and r: "rec hod t p = Some res"
        by (auto split: option.splits)
      from "1.IH" [OF r] res have d: "hod (t d)"
        and ih: "\<And>parts. \<exists>ps. slugParts t p d parts = Some (Inr ps)"
        by simp_all
      from d False have neq: "n \<noteq> d" by auto
      have "\<exists>ps. slugParts t n d parts = Some (Inr ps)" for parts
        using p neq ih by (subst slugParts.simps) simp
      with d show "hod (t d) \<and> (\<forall>parts. \<exists>ps. slugParts t n d parts = Some (Inr ps))"
        by simp
    qed
  qed
qed

lemma slugParts_owner:
  "getReflectionWithDocument hod t n = Some (Inr d) \<Longrightarrow>
     \<exists>ps. slugParts t n d parts = Some (Inr ps)"
  using slugParts_owner_aux by blast

section \<open>The uniquifier issues fresh identifiers\<close>

lemma nextOccurrence_fresh:
  "\<not> hasOwnProperty seen (numbered original (nextOccurrence seen original occ))"
proof (induction seen original occ rule: nextOccurrence.induct)
  case (1 seen originalSlug occurrence)
  then show ?case
    by (subst nextOccurrence.simps) simp
qed

lemma hasOwnProperty_update:
  "hasOwnProperty (AList.update k v seen) k' = (k' = k \<or> hasOwnProperty seen k')"
  by (simp add: hasOwnProperty_def AList.update_conv')

lemma slug_fresh: "\<not> hasOwnProperty seen (fst (slug serialize seen label))"
proof (cases "map_of seen (serialize label)")
  case None
  then show ?thesis
    by (simp add: slug_def getNextSafeSlug_def hasOwnProperty_def)
next
  case (Some count)
  then show ?thesis
    by (simp add: slug_def getNextSafeSlug_def Let_def nextOccurrence_fresh)
qed

lemma slug_registered:
  "hasOwnProperty (snd (slug serialize seen label)) (fst (slug serialize seen label))"
  by (simp add: slug_def getNextSafeSlug_def Let_def hasOwnProperty_update split: option.splits)


section \<open>Every query returns on a well-formed tree\<close>

lemma createSlug_returns:
  assumes "getReflectionWithDocument hod t n = Some (Inr d)"
  shows "\<exists>v st'. createSlug serialize hod t st n header = Some (Inr v, st')"
proof -
  from slugParts_owner [OF assms, of "[]"] obtain ps
    where "slugParts t n d [] = Some (Inr ps)" by blast
  with assms show ?thesis
    by (simp add: createSlug_def Let_def split: prod.splits option.splits)
qed

lemma createLink_returns:
  assumes "rooted t from" and "rooted t to" and "ownsProject hod"
  shows "\<exists>link st'. createLink cwd serialize hod t st from to = Some (Inr link, st')"
proof -
  from getDocumentName_rooted [OF assms(1,3)] obtain fromPage
    where f: "getDocumentName hod t from = Some (Inr fromPage)" by blast
  from getDocumentName_rooted [OF assms(2,3)] obtain toPage
    where g: "getDocumentName hod t to = Some (Inr toPage)" by blast
  from owner_rooted [OF assms(2,3)] obtain d
    where "getReflectionWithDocument hod t to = Some (Inr d)" by blast
  from createSlug_returns [OF this, of serialize st None] obtain v st'
    where "createSlug serialize hod t st to None = Some (Inr v, st')" by blast
  with f g show ?thesis
    by (simp add: createLink_def)
qed

lemma createAssetLink_returns:
  assumes "rooted t from" and "ownsProject hod"
  shows "\<exists>link. createAssetLink cwd hod t from asset = Some (Inr link)"
proof -
  from owner_rooted [OF assms] obtain d
    where d: "getReflectionWithDocument hod t from = Some (Inr d)" and "rooted t d" by blast
  from getDocumentName_rooted [OF \<open>rooted t d\<close> assms(2)] obtain page
    where "getDocumentName hod t d = Some (Inr page)" by blast
  with d show ?thesis
    by (simp add: createAssetLink_def)
qed

lemma createMediaLink_createAssetLink:
  "createMediaLink cwd hod t from media = createAssetLink cwd hod t from media"
  by (simp add: createMediaLink_def createAssetLink_def)

lemma ownsProject_hasOwnDocument: "ownsProject hasOwnDocument"
  by (simp add: ownsProject_def hasOwnDocument_def isProject_def kindOf_def)

lemma ownsProject_Minimal: "ownsProject MinimalThemeRouter_hasOwnDocument"
  by (simp add: ownsProject_def MinimalThemeRouter_hasOwnDocument_def)

lemma rooted_myLib: "rooted myLib 0" "rooted myLib 1" "rooted myLib 2" "rooted myLib 3"
proof -
  show 0: "rooted myLib 0"
    by (rule rooted.root) (simp_all add: myLib_def isProject_def)
  show 1: "rooted myLib 1"
    by (rule rooted.child [OF _ 0]) (simp add: myLib_def)
  show 2: "rooted myLib 2"
    by (rule rooted.child [OF _ 1]) (simp add: myLib_def)
  show "rooted myLib 3"
    by (rule rooted.child [OF _ 2]) (simp add: myLib_def)
qed

lemma projectIsRoot_myLib: "projectIsRoot myLib"
  by (simp add: projectIsRoot_def myLib_def isProject_def nobody_def)

text \<open>
  C8. On a well-formed tree (the policy accepts the project, and the parent links of the
  reflections queried lead to a parentless project) no assertion fails and no loop runs
  forever: resolving the owner of a page, \<^verbatim>\<open>getDocumentName\<close>, \<^verbatim>\<open>createSlug\<close> with or
  without a header, \<^verbatim>\<open>createLink\<close>, \<^verbatim>\<open>createAssetLink\<close> and \<^verbatim>\<open>createMediaLink\<close> all return a
  value, in every state of the router. The only errors of the model are the two
  constructors of \<open>error\<close>; the policy, the sanitizer and the uniquifier are total
  functions.
\<close>

theorem queries_return:
  assumes "ownsProject hod" and "rooted t n" and "rooted t m"
  shows "(\<exists>d. getReflectionWithDocument hod t n = Some (Inr d)) \<and>
         (\<exists>page. getDocumentName hod t n = Some (Inr page)) \<and>
         (\<exists>v st'. createSlug serialize hod t st n header = Some (Inr v, st')) \<and>
         (\<exists>link st'. createLink cwd serialize hod t st n m = Some (Inr link, st')) \<and>
         (\<exists>link. createAssetLink cwd hod t n asset = Some (Inr link)) \<and>
         (\<exists>link. createMediaLink cwd hod t n media = Some (Inr link))"
proof -
  from owner_rooted [OF assms(2,1)] obtain d
    where d: "getReflectionWithDocument hod t n = Some (Inr d)" by blast
  then have "\<exists>d. getReflectionWithDocument hod t n = Some (Inr d)" by blast
  moreover note getDocumentName_rooted [OF assms(2,1)]
  moreover note createSlug_returns [OF d, of serialize st header]
  moreover note createLink_returns [OF assms(2,3,1), of cwd serialize st]
  moreover note createAssetLink_returns [OF assms(2,1), of cwd asset]
  moreover have "\<exists>link. createMediaLink cwd hod t n media = Some (Inr link)"
    using createAssetLink_returns [OF assms(2,1), of cwd media]
    by (simp add: createMediaLink_createAssetLink)
  ultimately show ?thesis by blast
qed

theorem queries_return_witness:
  "ownsProject hasOwnDocument \<and> rooted myLib 3 \<and> rooted myLib 0 \<and>
   (\<exists>d. getReflectionWithDocument hasOwnDocument myLib 3 = Some (Inr d)) \<and>
   (\<exists>page. getDocumentName hasOwnDocument myLib 3 = Some (Inr page)) \<and>
   (\<exists>v st'. createSlug (\<lambda>s. s) hasOwnDocument myLib newRouter 3 (Some ''Example'') =
       Some (Inr v, st')) \<and>
   (\<exists>link st'. createLink [''home''] (\<lambda>s. s) hasOwnDocument myLib newRouter 3 0 =
       Some (Inr link, st')) \<and>
   (\<exists>link. createAssetLink [''home''] hasOwnDocument myLib 3 ''main.js'' = Some (Inr link)) \<and>
   (\<exists>link. createMediaLink [''home''] hasOwnDocument myLib 3 ''logo.png'' = Some (Inr link))"
  using queries_return [OF ownsProject_hasOwnDocument rooted_myLib(4) rooted_myLib(1),
      of "\<lambda>s. s" newRouter "Some ''Example''" "[''home'']" "''main.js''" "''logo.png''"]
    ownsProject_hasOwnDocument rooted_myLib(4) rooted_myLib(1)
  by simp

section \<open>The single-page router\<close>

lemma minimal_owner:
  assumes "rooted t n" and "projectIsRoot t"
  shows "\<exists>d. getReflectionWithDocument MinimalThemeRouter_hasOwnDocument t n = Some (Inr d) \<and>
             isProject (t d) \<and> parent (t d) = None"
  using assms(1)
proof (induction rule: rooted.induct)
  case (root n)
  then show ?case
    by (simp add: owner_self MinimalThemeRouter_hasOwnDocument_def)
next
  case (child n p)
  with assms(2) have "\<not> isProject (t n)"
    by (auto simp: projectIsRoot_def)
  with child show ?case
    by (simp add: owner_parent MinimalThemeRouter_hasOwnDocument_def)
qed

text \<open>
  C9. Under the policy of \<^verbatim>\<open>MinimalThemeRouter\<close>, on a tree whose only project is its root,
  a reflection of the tree has a page of its own exactly when it is the root, and the
  document name of every reflection of the tree is \<^verbatim>\<open>index.html\<close>. Every other operation
  is the one of \<^verbatim>\<open>ThemeRouter\<close>, applied to this policy.
\<close>

theorem minimal_single_page:
  assumes "rooted t n" and "projectIsRoot t"
  shows "MinimalThemeRouter_hasOwnDocument (t n) = (parent (t n) = None) \<and>
         getDocumentName MinimalThemeRouter_hasOwnDocument t n = Some (Inr ''index.html'')"
proof
  from assms(1) have "isProject (t n) = (parent (t n) = None)"
    using assms(2) by (cases rule: rooted.cases) (auto simp: projectIsRoot_def)
  then show "MinimalThemeRouter_hasOwnDocument (t n) = (parent (t n) = None)"
    by (simp add: MinimalThemeRouter_hasOwnDocument_def)
next
  from minimal_owner [OF assms] obtain d
    where "getReflectionWithDocument MinimalThemeRouter_hasOwnDocument t n = Some (Inr d)"
      and "isProject (t d)" and "parent (t d) = None"
    by blast
  then show "getDocumentName MinimalThemeRouter_hasOwnDocument t n = Some (Inr ''index.html'')"
    by (simp add: getDocumentName_def documentParts.simps)
qed

theorem minimal_single_page_witness:
  "rooted myLib 3 \<and> projectIsRoot myLib \<and>
   \<not> MinimalThemeRouter_hasOwnDocument (myLib 3) \<and>
   getDocumentName MinimalThemeRouter_hasOwnDocument myLib 3 = Some (Inr ''index.html'')"
  using minimal_single_page [OF rooted_myLib(4) projectIsRoot_myLib]
    rooted_myLib(4) projectIsRoot_myLib
  by (simp add: myLib_def)

section \<open>Relative paths below the working directory\<close>

lemma normalizeSegments_append:
  "normalizeSegments allow (xs @ ys) =
     foldl (normalizeStep allow) (normalizeSegments allow xs) ys"
  by (simp add: normalizeSegments_def)

lemma stripCommon_prefix: "stripCommon (c @ xs) (c @ ys) = stripCommon xs ys"
  by (induction c) simp_all

lemma resolve_core: "posix_resolve cwd ''core'' = normalizeSegments False cwd @ [''core'']"
  by (simp add: posix_resolve_def isAbsolute_def normalizeSegments_append normalizeStep_def)

lemma resolve_index:
  "posix_resolve cwd ''index.html'' = normalizeSegments False cwd @ [''index.html'']"
  by (simp add: posix_resolve_def isAbsolute_def normalizeSegments_append normalizeStep_def)

lemma resolve_assets:
  "posix_resolve cwd ''assets/logo.png'' =
     normalizeSegments False cwd @ [''assets'', ''logo.png'']"
  by (simp add: posix_resolve_def isAbsolute_def normalizeSegments_append normalizeStep_def)

lemma resolve_media:
  "posix_resolve cwd ''media/logo.png'' =
     normalizeSegments False cwd @ [''media'', ''logo.png'']"
  by (simp add: posix_resolve_def isAbsolute_def normalizeSegments_append normalizeStep_def)

lemma relative_core_index: "posix_relative cwd ''core'' ''index.html'' = ''../index.html''"
  using stripCommon_prefix [of "normalizeSegments False cwd" "[''core'']" "[''index.html'']"]
  by (simp add: posix_relative_def resolve_core resolve_index)

lemma relative_core_assets:
  "posix_relative cwd ''core'' ''assets/logo.png'' = ''../assets/logo.png''"
  using stripCommon_prefix [of "normalizeSegments False cwd" "[''core'']"
      "[''assets'', ''logo.png'']"]
  by (simp add: posix_relative_def resolve_core resolve_assets)

lemma relative_core_media:
  "posix_relative cwd ''core'' ''media/logo.png'' = ''../media/logo.png''"
  using stripCommon_prefix [of "normalizeSegments False cwd" "[''core'']"
      "[''media'', ''logo.png'']"]
  by (simp add: posix_relative_def resolve_core resolve_media)

lemma join_assets: "posix_join ''assets'' ''logo.png'' = ''assets/logo.png''"
  by (simp add: posix_join_def posix_normalize_def isAbsolute_def normalizeSegments_def
      normalizeStep_def)

lemma join_media: "posix_join ''media'' ''logo.png'' = ''media/logo.png''"
  by (simp add: posix_join_def posix_normalize_def isAbsolute_def normalizeSegments_def
      normalizeStep_def)

lemma dirname_Foo: "posix_dirname ''core/class.Foo.html'' = ''core''"
  by (simp add: posix_dirname_def)

section \<open>The scenario of the spec\<close>

lemmas tree_simps =
  getDocumentName_def getReflectionWithDocument.simps documentParts.simps
  hasOwnDocument_def kindOf_def isProject_def anyChildrenHaveOwnDocument_def fileName_def
  safeChar_def portable_def

lemma myLib_owner:
  "getReflectionWithDocument hasOwnDocument myLib 0 = Some (Inr 0)"
  "getReflectionWithDocument hasOwnDocument myLib 3 = Some (Inr 2)"
  by (simp_all add: getReflectionWithDocument.simps hasOwnDocument_def kindOf_def myLib_def)

lemma myLib_names:
  "getDocumentName hasOwnDocument myLib 0 = Some (Inr ''index.html'')"
  "getDocumentName hasOwnDocument myLib 1 = Some (Inr ''core/index.html'')"
  "getDocumentName hasOwnDocument myLib 2 = Some (Inr ''core/class.Foo.html'')"
  "getDocumentName hasOwnDocument myLib 3 = Some (Inr ''core/class.Foo.html'')"
  by (simp_all add: tree_simps myLib_def)

text \<open>
  C1. \<^verbatim>\<open>createMediaLink\<close> should link into the directory that \<^verbatim>\<open>getMediaDirectory\<close> names.
  The source joins the name to \<^verbatim>\<open>getAssetDirectory()\<close> instead: for the method \<^verbatim>\<open>bar\<close> of the
  scenario and the name \<^verbatim>\<open>logo.png\<close> it returns \<^verbatim>\<open>../assets/logo.png\<close>, where the relative
  path to the media directory is \<^verbatim>\<open>../media/logo.png\<close>, whatever the working directory.
\<close>

theorem createMediaLink_links_to_assets:
  "createMediaLink cwd hasOwnDocument myLib 3 ''logo.png'' = Some (Inr ''../assets/logo.png'') \<and>
   posix_relative cwd (posix_dirname ''core/class.Foo.html'')
     (posix_join getMediaDirectory ''logo.png'') = ''../media/logo.png''"
  by (simp add: createMediaLink_def myLib_owner myLib_names getAssetDirectory_def
      getMediaDirectory_def dirname_Foo join_assets join_media relative_core_assets
      relative_core_media)

text \<open>
  C2. The document names of two distinct reflections with a page of their own should
  differ. The classes \<^verbatim>\<open>$a\<close> and \<^verbatim>\<open>_a\<close> of one project both have a page of their own under
  the default policy, and both get the document name \<^verbatim>\<open>class._a.html\<close>: the sanitizer maps
  both names to \<^verbatim>\<open>_a\<close>.
\<close>

theorem twoClasses_share_a_file:
  "hasOwnDocument (twoClasses 1) \<and> hasOwnDocument (twoClasses 2) \<and>
   getDocumentName hasOwnDocument twoClasses 1 = Some (Inr ''class._a.html'') \<and>
   getDocumentName hasOwnDocument twoClasses 2 = Some (Inr ''class._a.html'')"
  by (simp add: tree_simps twoClasses_def)

lemma newSlugger_reserved:
  "keepsReserved serialize \<Longrightarrow>
     newSlugger serialize = [(''main'', 0), (''search'', 0), (''theme'', 0)]"
  by (simp add: newSlugger_def slug_def getNextSafeSlug_def keepsReserved_def)

lemma myLib_slugParts: "slugParts myLib 3 2 [] = Some (Inr [''bar''])"
  by (simp add: slugParts.simps myLib_def kindOf_def)

lemma myLib_bar_first:
  assumes "keepsReserved serialize" and "serialize ''bar'' = ''bar''"
  shows "createSlug serialize hasOwnDocument myLib newRouter 3 None =
     Some (Inr ''bar'',
       \<lparr>sluggers = [2 \<mapsto> [(''main'', 0), (''search'', 0), (''theme'', 0), (''bar'', 0)]],
        slugs = [2 \<mapsto> [3 \<mapsto> ''bar'']]\<rparr>)"
  using assms
  by (simp add: createSlug_def myLib_owner myLib_slugParts given_def sluggerOf_def memoOf_def
      newRouter_def newSlugger_reserved slug_def getNextSafeSlug_def)

lemma myLib_bar_second:
  "createSlug serialize hasOwnDocument myLib
     \<lparr>sluggers = [2 \<mapsto> [(''main'', 0), (''search'', 0), (''theme'', 0), (''bar'', 0)]],
      slugs = [2 \<mapsto> [3 \<mapsto> ''bar'']]\<rparr> 3 None =
     Some (Inr ''bar'',
       \<lparr>sluggers = [2 \<mapsto> [(''main'', 0), (''search'', 0), (''theme'', 0), (''bar'', 0)]],
        slugs = [2 \<mapsto> [3 \<mapsto> ''bar'']]\<rparr>)"
  by (simp add: createSlug_def myLib_owner myLib_slugParts given_def sluggerOf_def memoOf_def)

lemma myLib_project_slug:
  "createSlug serialize hasOwnDocument myLib st 0 None = Some (Inr [], st)"
  by (simp add: createSlug_def myLib_owner given_def)

text \<open>
  C6 as stated fails for the class and its method: the kind string is in lower case, so
  their document name is \<^verbatim>\<open>core/class.Foo.html\<close>, not \<^verbatim>\<open>core/Class.Foo.html\<close>.
\<close>

theorem scenario_kind_is_lower_case:
  "getDocumentName hasOwnDocument myLib 2 = Some (Inr ''core/class.Foo.html'') \<and>
   getDocumentName hasOwnDocument myLib 3 = Some (Inr ''core/class.Foo.html'') \<and>
   ''core/class.Foo.html'' \<noteq> ''core/Class.Foo.html''"
  using myLib_names(3,4) by simp

text \<open>
  C6, as amended. The scenario of the spec, for every normalization of the slugger that
  leaves the ids of the default page and the label \<^verbatim>\<open>bar\<close> as they are, and for every
  working directory: the document names \<^verbatim>\<open>index.html\<close>, \<^verbatim>\<open>core/index.html\<close> and, for the
  class and for its method, \<^verbatim>\<open>core/class.Foo.html\<close>; the slug \<^verbatim>\<open>bar\<close> on the first and on the
  second call on a new router; the empty slug of the project; and the link
  \<^verbatim>\<open>../index.html\<close> without an anchor from \<^verbatim>\<open>bar\<close> to the project.
\<close>

theorem myLib_scenario:
  assumes "keepsReserved serialize" and "serialize ''bar'' = ''bar''"
  shows "getDocumentName hasOwnDocument myLib 0 = Some (Inr ''index.html'') \<and>
         getDocumentName hasOwnDocument myLib 1 = Some (Inr ''core/index.html'') \<and>
         getDocumentName hasOwnDocument myLib 2 = Some (Inr ''core/class.Foo.html'') \<and>
         getDocumentName hasOwnDocument myLib 3 = Some (Inr ''core/class.Foo.html'') \<and>
         (\<exists>st1 st2.
            createSlug serialize hasOwnDocument myLib newRouter 3 None = Some (Inr ''bar'', st1) \<and>
            createSlug serialize hasOwnDocument myLib st1 3 None = Some (Inr ''bar'', st2)) \<and>
         createSlug serialize hasOwnDocument myLib st 0 None = Some (Inr [], st) \<and>
         createLink cwd serialize hasOwnDocument myLib st 3 0 = Some (Inr ''../index.html'', st)"
proof -
  have "\<exists>st1 st2.
      createSlug serialize hasOwnDocument myLib newRouter 3 None = Some (Inr ''bar'', st1) \<and>
      createSlug serialize hasOwnDocument myLib st1 3 None = Some (Inr ''bar'', st2)"
    using myLib_bar_first [OF assms] myLib_bar_second [of serialize] by blast
  moreover have
    "createLink cwd serialize hasOwnDocument myLib st 3 0 = Some (Inr ''../index.html'', st)"
    by (simp add: createLink_def myLib_names myLib_project_slug dirname_Foo relative_core_index)
  ultimately show ?thesis
    using myLib_names myLib_project_slug [of serialize st] by blast
qed

theorem myLib_scenario_witness:
  "keepsReserved (\<lambda>s. s) \<and>
   getDocumentName hasOwnDocument myLib 2 = Some (Inr ''core/class.Foo.html'') \<and>
   (\<exists>st1 st2.
      createSlug (\<lambda>s. s) hasOwnDocument myLib newRouter 3 None = Some (Inr ''bar'', st1) \<and>
      createSlug (\<lambda>s. s) hasOwnDocument myLib st1 3 None = Some (Inr ''bar'', st2)) \<and>
   createSlug (\<lambda>s. s) hasOwnDocument myLib newRouter 0 None = Some (Inr [], newRouter) \<and>
   createLink [''home'', ''docs''] (\<lambda>s. s) hasOwnDocument myLib newRouter 3 0 =
     Some (Inr ''../index.html'', newRouter)"
proof -
  have k: "keepsReserved (\<lambda>s. s)" by (simp add: keepsReserved_def)
  have b: "(\<lambda>s. s) ''bar'' = ''bar''" by simp
  from myLib_scenario [OF k b, of newRouter "[''home'', ''docs'']"] k show ?thesis
    by simp
qed

section \<open>The three ways through createSlug\<close>

lemma memoOf_sluggers [simp]: "memoOf (st\<lparr>sluggers := f\<rparr>) d = memoOf st d"
  by (simp add: memoOf_def)

lemma createSlug_page:
  assumes "getReflectionWithDocument hod t n = Some (Inr n)" and "\<not> given header"
  shows "createSlug serialize hod t st n header = Some (Inr [], st)"
  using assms by (simp add: createSlug_def)

lemma createSlug_header:
  assumes "getReflectionWithDocument hod t n = Some (Inr d)" and "given header"
  shows "createSlug serialize hod t st n header =
     Some (Inr (fst (slug serialize (sluggerOf serialize st d) (the header))),
       st\<lparr>sluggers := (sluggers st)
             (d \<mapsto> snd (slug serialize (sluggerOf serialize st d) (the header)))\<rparr>)"
  using assms by (simp add: createSlug_def Let_def split: prod.splits)

lemma createSlug_anchor:
  assumes "getReflectionWithDocument hod t n = Some (Inr d)" and "\<not> given header"
    and "d \<noteq> n" and "slugParts t n d [] = Some (Inr parts)"
  shows "createSlug serialize hod t st n header =
     Some (Inr (fst (issue serialize st d n parts)),
       st\<lparr>sluggers := (sluggers st)(d \<mapsto> snd (issue serialize st d n parts)),
          slugs := (slugs st)(d \<mapsto> (memoOf st d)(n \<mapsto> fst (issue serialize st d n parts)))\<rparr>)"
  using assms by (simp add: createSlug_def Let_def issue_def split: prod.splits option.splits)

section \<open>A slug once given is given again\<close>

lemma memo_set:
  assumes "getReflectionWithDocument hod t n = Some (Inr d)" and "d \<noteq> n"
    and "createSlug serialize hod t st n None = Some (Inr v, st')"
  shows "memoOf st' d n = Some v"
proof -
  from slugParts_owner [OF assms(1), of "[]"] obtain parts
    where "slugParts t n d [] = Some (Inr parts)" by blast
  from createSlug_anchor [OF assms(1) _ assms(2) this, of None serialize st] assms(3)
  show ?thesis
    by (auto simp: given_def memoOf_def)
qed

lemma memo_kept:
  assumes "memoOf st d n = Some v"
    and "createSlug serialize hod t st m header = Some (r, st')"
  shows "memoOf st' d n = Some v"
proof (cases "getReflectionWithDocument hod t m")
  case None
  with assms(2) show ?thesis by (simp add: createSlug_def)
next
  case (Some res)
  show ?thesis
  proof (cases res)
    case (Inl e)
    with Some assms show ?thesis by (simp add: createSlug_def)
  next
    case (Inr d')
    with Some have owner: "getReflectionWithDocument hod t m = Some (Inr d')" by simp
    show ?thesis
    proof (cases "given header")
      case True
      from createSlug_header [OF owner True, of serialize st] assms show ?thesis
        by auto
    next
      case False
      show ?thesis
      proof (cases "d' = m")
        case True
        with owner False assms show ?thesis
          by (simp add: createSlug_page)
      next
        case neq: False
        from slugParts_owner [OF owner, of "[]"] obtain parts
          where "slugParts t m d' [] = Some (Inr parts)" by blast
        from createSlug_anchor [OF owner False neq this, of serialize st] assms
        show ?thesis
          by (auto simp: memoOf_def issue_def)
      qed
    qed
  qed
qed

lemma memo_kept_link:
  assumes "memoOf st d n = Some v"
    and "createLink cwd serialize hod t st from to = Some (r, st')"
  shows "memoOf st' d n = Some v"
  using assms
  by (auto simp: createLink_def split: option.splits sum.splits prod.splits
      dest: memo_kept)

lemma memo_kept_queries:
  "memoOf st d n = Some v \<Longrightarrow> queries cwd serialize hod t st qs = Some st' \<Longrightarrow>
     memoOf st' d n = Some v"
proof (induction qs arbitrary: st)
  case Nil
  then show ?case by simp
next
  case (Cons q qs)
  then obtain st1 where 1: "runQuery cwd serialize hod t st q = Some st1"
    and 2: "queries cwd serialize hod t st1 qs = Some st'"
    by (auto split: option.splits)
  from 1 Cons.prems(1) have "memoOf st1 d n = Some v"
    by (cases q) (auto dest: memo_kept memo_kept_link)
  with Cons.IH 2 show ?case by blast
qed

lemma memo_hit:
  assumes "getReflectionWithDocument hod t n = Some (Inr d)" and "d \<noteq> n"
    and "memoOf st d n = Some v"
  shows "\<exists>st'. createSlug serialize hod t st n None = Some (Inr v, st')"
proof -
  from slugParts_owner [OF assms(1), of "[]"] obtain parts
    where "slugParts t n d [] = Some (Inr parts)" by blast
  from createSlug_anchor [OF assms(1) _ assms(2) this, of None serialize st] assms(3)
  show ?thesis
    by (simp add: given_def issue_def)
qed

lemma createSlug_Inr_owner:
  assumes "createSlug serialize hod t st n header = Some (Inr v, st')"
  shows "\<exists>d. getReflectionWithDocument hod t n = Some (Inr d)"
  using assms by (auto simp: createSlug_def split: option.splits sum.splits)

text \<open>
  C3. \<^verbatim>\<open>getDocumentName\<close> reads the tree only, which routing does not change: in the model
  it has no state among its arguments, so two calls for one reflection return the same
  value. For \<^verbatim>\<open>createSlug\<close>: when a call without a header has returned a slug for a
  reflection, then after any list of further queries (calls of \<^verbatim>\<open>createSlug\<close> for any
  reflection, with or without a header, and calls of \<^verbatim>\<open>createLink\<close>) a call without a
  header for that reflection returns, and returns the same slug.
\<close>

theorem createSlug_idempotent:
  assumes "createSlug serialize hod t st n None = Some (Inr v, st1)"
    and "queries cwd serialize hod t st1 qs = Some st2"
  shows "\<exists>st3. createSlug serialize hod t st2 n None = Some (Inr v, st3)"
proof -
  from createSlug_Inr_owner [OF assms(1)] obtain d
    where owner: "getReflectionWithDocument hod t n = Some (Inr d)" by blast
  show ?thesis
  proof (cases "d = n")
    case True
    with owner have "createSlug serialize hod t s n None = Some (Inr [], s)" for s
      by (simp add: createSlug_page given_def)
    with assms(1) show ?thesis by auto
  next
    case False
    from memo_set [OF owner False assms(1)] have "memoOf st1 d n = Some v" .
    from memo_kept_queries [OF this assms(2)] have "memoOf st2 d n = Some v" .
    from memo_hit [OF owner False this] show ?thesis .
  qed
qed

text \<open>
  C4, as amended. For every reflection whose page has an owner and every header that is
  not the empty string, two successive calls of \<^verbatim>\<open>createSlug\<close> with that header both
  return, and return two different strings. (An empty header is falsy in the source and is
  treated as no header at all.)
\<close>

theorem createSlug_header_fresh:
  assumes "getReflectionWithDocument hod t n = Some (Inr d)" and "h \<noteq> []"
  shows "\<exists>v1 st1 v2 st2.
           createSlug serialize hod t st n (Some h) = Some (Inr v1, st1) \<and>
           createSlug serialize hod t st1 n (Some h) = Some (Inr v2, st2) \<and> v1 \<noteq> v2"
proof -
  let ?S = "sluggerOf serialize st d"
  let ?v1 = "fst (slug serialize ?S h)"
  let ?S1 = "snd (slug serialize ?S h)"
  let ?st1 = "st\<lparr>sluggers := (sluggers st)(d \<mapsto> ?S1)\<rparr>"
  let ?v2 = "fst (slug serialize ?S1 h)"
  from assms(2) have g: "given (Some h)" by (simp add: given_def)
  have 1: "createSlug serialize hod t st n (Some h) = Some (Inr ?v1, ?st1)"
    using createSlug_header [OF assms(1) g, of serialize st] by simp
  have S1: "sluggerOf serialize ?st1 d = ?S1"
    by (simp add: sluggerOf_def)
  have "\<exists>st2. createSlug serialize hod t ?st1 n (Some h) = Some (Inr ?v2, st2)"
    using createSlug_header [OF assms(1) g, of serialize ?st1] by (simp add: S1)
  moreover have "?v1 \<noteq> ?v2"
    using slug_registered [of serialize ?S h] slug_fresh [of ?S1 serialize h] by auto
  ultimately show ?thesis
    using 1 by blast
qed

lemma bar_state_owner [simp]: "getReflectionWithDocument hasOwnDocument myLib 2 = Some (Inr 2)"
  "getReflectionWithDocument hasOwnDocument myLib 1 = Some (Inr 1)"
  by (simp_all add: getReflectionWithDocument.simps hasOwnDocument_def kindOf_def myLib_def)

theorem createSlug_idempotent_witness:
  "\<exists>st1 st2 st3.
     createSlug (\<lambda>s. s) hasOwnDocument myLib newRouter 3 None = Some (Inr ''bar'', st1) \<and>
     queries [''home''] (\<lambda>s. s) hasOwnDocument myLib st1
       [CreateSlug 3 (Some ''bar''), CreateSlug 2 (Some ''bar''), CreateLink 0 3,
        CreateSlug 2 None] = Some st2 \<and>
     createSlug (\<lambda>s. s) hasOwnDocument myLib st2 3 None = Some (Inr ''bar'', st3)"
proof -
  have k: "keepsReserved (\<lambda>s. s)" by (simp add: keepsReserved_def)
  from myLib_bar_first [OF k] obtain st1
    where 1: "createSlug (\<lambda>s. s) hasOwnDocument myLib newRouter 3 None = Some (Inr ''bar'', st1)"
    by simp
  have "\<exists>st2. queries [''home''] (\<lambda>s. s) hasOwnDocument myLib st1
       [CreateSlug 3 (Some ''bar''), CreateSlug 2 (Some ''bar''), CreateLink 0 3,
        CreateSlug 2 None] = Some st2"
    by (simp add: createSlug_header createSlug_page createSlug_anchor myLib_owner
        myLib_slugParts myLib_names given_def createLink_def)
  then obtain st2 where 2: "queries [''home''] (\<lambda>s. s) hasOwnDocument myLib st1
       [CreateSlug 3 (Some ''bar''), CreateSlug 2 (Some ''bar''), CreateLink 0 3,
        CreateSlug 2 None] = Some st2" ..
  from createSlug_idempotent [OF 1 2] 1 2 show ?thesis
    by blast
qed

theorem createSlug_header_fresh_witness:
  "getReflectionWithDocument hasOwnDocument myLib 3 = Some (Inr 2) \<and> ''Example'' \<noteq> [] \<and>
   (\<exists>st1 st2.
      createSlug (\<lambda>s. s) hasOwnDocument myLib newRouter 3 (Some ''Example'') =
        Some (Inr ''Example'', st1) \<and>
      createSlug (\<lambda>s. s) hasOwnDocument myLib st1 3 (Some ''Example'') =
        Some (Inr ''Example-1'', st2)) \<and>
   (\<exists>v1 st1 v2 st2.
      createSlug (\<lambda>s. s) hasOwnDocument myLib newRouter 3 (Some ''Example'') =
        Some (Inr v1, st1) \<and>
      createSlug (\<lambda>s. s) hasOwnDocument myLib st1 3 (Some ''Example'') = Some (Inr v2, st2) \<and>
      v1 \<noteq> v2)"
proof -
  have k: "keepsReserved (\<lambda>s. s)" by (simp add: keepsReserved_def)
  have e: "''Example'' \<noteq> []" by simp
  have "\<exists>st1 st2.
      createSlug (\<lambda>s. s) hasOwnDocument myLib newRouter 3 (Some ''Example'') =
        Some (Inr ''Example'', st1) \<and>
      createSlug (\<lambda>s. s) hasOwnDocument myLib st1 3 (Some ''Example'') =
        Some (Inr ''Example-1'', st2)"
    by (simp add: createSlug_header myLib_owner given_def sluggerOf_def newRouter_def
        newSlugger_reserved [OF k] slug_def getNextSafeSlug_def nextOccurrence.simps
        hasOwnProperty_def numbered_def digits.simps digitChar_def Let_def)
  with createSlug_header_fresh [OF myLib_owner(2) e, of "\<lambda>s. s" newRouter] myLib_owner(2)
  show ?thesis
    by simp
qed

text \<open>
  C4 as stated fails for the empty header: two successive calls for the method \<^verbatim>\<open>bar\<close> with
  the header \<^verbatim>\<open>""\<close> both return \<^verbatim>\<open>bar\<close>, the second from the memo of the first.
\<close>

theorem empty_header_is_memoized:
  "createSlug (\<lambda>s. s) hasOwnDocument myLib newRouter 3 (Some []) =
     Some (Inr ''bar'',
       \<lparr>sluggers = [2 \<mapsto> [(''main'', 0), (''search'', 0), (''theme'', 0), (''bar'', 0)]],
        slugs = [2 \<mapsto> [3 \<mapsto> ''bar'']]\<rparr>) \<and>
   createSlug (\<lambda>s. s) hasOwnDocument myLib
       \<lparr>sluggers = [2 \<mapsto> [(''main'', 0), (''search'', 0), (''theme'', 0), (''bar'', 0)]],
        slugs = [2 \<mapsto> [3 \<mapsto> ''bar'']]\<rparr> 3 (Some []) =
     Some (Inr ''bar'',
       \<lparr>sluggers = [2 \<mapsto> [(''main'', 0), (''search'', 0), (''theme'', 0), (''bar'', 0)]],
        slugs = [2 \<mapsto> [3 \<mapsto> ''bar'']]\<rparr>)"
proof -
  have k: "keepsReserved (\<lambda>s. s)" by (simp add: keepsReserved_def)
  show ?thesis
    by (simp add: createSlug_def myLib_owner myLib_slugParts given_def sluggerOf_def memoOf_def
      newRouter_def newSlugger_reserved [OF k] slug_def getNextSafeSlug_def)
qed

section \<open>Signatures directly below the owner of a page\<close>














section \<open>Slugs of one page\<close>


section \<open>Lower case\<close>









section \<open>The invariant of a page\<close>



















section \<open>Safe document names\<close>

















end
